theory Spec2Isabelle
  imports Main "HOL-Library.Word"
begin

section \<open>Bytes, pixels and images\<close>

text \<open>
  The program (\<^verbatim>\<open>gif_frames.py\<close>) decodes an animated GIF into RGBA canvases
  (\<^verbatim>\<open>read_frames\<close>) and writes a sequence of canvases back as a GIF89a byte stream
  (\<^verbatim>\<open>write_frames\<close>). Pixel channels and bytes are 8-bit words; an image is its
  \<^verbatim>\<open>size\<close> (width, height) together with the pixel at every coordinate, as read by
  the imaging library. Only coordinates inside the size are ever inspected.
\<close>

type_synonym byte = "8 word"
type_synonym bytes = "byte list"
type_synonym rgba = "byte \<times> byte \<times> byte \<times> byte"
type_synonym box = "nat \<times> nat \<times> nat \<times> nat"

record image =
  im_size :: "nat \<times> nat"
  im_px :: "nat \<times> nat \<Rightarrow> rgba"

definition width :: "image \<Rightarrow> nat" where
  "width img = fst (im_size img)"

definition height :: "image \<Rightarrow> nat" where
  "height img = snd (im_size img)"

text \<open>Every exception the two functions can meet is a value of this type.\<close>

datatype error =
    EOFError
  | TypeError
  | IndexError
  | UnicodeEncodeError
  | OverflowError
  | CodecError nat

section \<open>The imaging library operations used by the encoder\<close>

text \<open>
  \<^verbatim>\<open>ImageChops.subtract_modulo(a, b)\<close>: per channel \<open>(a - b) mod 256\<close>, on the region
  common to both images (the result has the smaller width and the smaller height).
\<close>

definition sub_px :: "rgba \<Rightarrow> rgba \<Rightarrow> rgba" where
  "sub_px p q =
     (case p of (r1, g1, b1, a1) \<Rightarrow>
        (case q of (r2, g2, b2, a2) \<Rightarrow> (r1 - r2, g1 - g2, b1 - b2, a1 - a2)))"

definition subtract_modulo :: "image \<Rightarrow> image \<Rightarrow> image" where
  "subtract_modulo a b =
     \<lparr> im_size = (min (width a) (width b), min (height a) (height b)),
       im_px = (\<lambda>xy. sub_px (im_px a xy) (im_px b xy)) \<rparr>"

text \<open>
  \<^verbatim>\<open>Image.getbbox()\<close>: the bounding box \<open>(left, upper, right, lower)\<close> of the non-zero
  region, right and lower exclusive, or \<^verbatim>\<open>None\<close> when there is none. On an image with
  an alpha channel, and a canvas is one, the library looks at the alpha channel only: a
  pixel counts when its alpha is not zero, whatever its colour.
\<close>

definition alpha :: "rgba \<Rightarrow> byte" where
  "alpha p = (case p of (r, g, b, a) \<Rightarrow> a)"

definition nonzero :: "rgba \<Rightarrow> bool" where
  "nonzero p = (alpha p \<noteq> 0)"

definition used_cols :: "image \<Rightarrow> nat list" where
  "used_cols img =
     filter (\<lambda>x. list_ex (\<lambda>y. nonzero (im_px img (x, y))) [0..<height img]) [0..<width img]"

definition used_rows :: "image \<Rightarrow> nat list" where
  "used_rows img =
     filter (\<lambda>y. list_ex (\<lambda>x. nonzero (im_px img (x, y))) [0..<width img]) [0..<height img]"

definition getbbox :: "image \<Rightarrow> box option" where
  "getbbox img =
     (case used_cols img of
        [] \<Rightarrow> None
      | c # cs \<Rightarrow>
          (case used_rows img of
             [] \<Rightarrow> None
           | r # rs \<Rightarrow> Some (c, r, Suc (last (c # cs)), Suc (last (r # rs)))))"

text \<open>\<^verbatim>\<open>Image.crop((x0, y0, x1, y1))\<close> and \<^verbatim>\<open>Image.copy()\<close>.\<close>

definition crop :: "image \<Rightarrow> box \<Rightarrow> image" where
  "crop img bx =
     (case bx of (x0, y0, x1, y1) \<Rightarrow>
        \<lparr> im_size = (x1 - x0, y1 - y0),
          im_px = (\<lambda>xy. im_px img (fst xy + x0, snd xy + y0)) \<rparr>)"

definition copy :: "image \<Rightarrow> image" where
  "copy img = img"

text \<open>
  \<^verbatim>\<open>Image.new('RGBA', size, color)\<close> and \<^verbatim>\<open>Image.putpixel(xy, color)\<close>: a canvas
  of one colour, and the change of a single pixel.
\<close>

definition new_image :: "nat \<times> nat \<Rightarrow> rgba \<Rightarrow> image" where
  "new_image sz c = \<lparr> im_size = sz, im_px = (\<lambda>xy. c) \<rparr>"

definition putpixel :: "image \<Rightarrow> nat \<times> nat \<Rightarrow> rgba \<Rightarrow> image" where
  "putpixel img xy c = img \<lparr> im_px := (im_px img) (xy := c) \<rparr>"

section \<open>The single-frame codec\<close>

text \<open>
  \<^verbatim>\<open>GifImagePlugin.getheader\<close> and \<^verbatim>\<open>GifImagePlugin.getdata\<close> are the external
  single-frame codec. The encoder only moves their results around, so they are
  parameters of the model: \<open>getheader\<close> returns the list of header pieces (the encoder
  reads pieces 1 and 3), \<open>getdata\<close> the list of data blocks of an image placed at an
  offset. Either may fail.
\<close>

record codec =
  getheader :: "image \<Rightarrow> error + bytes list"
  getdata :: "image \<Rightarrow> nat \<times> nat \<Rightarrow> error + bytes list"

section \<open>The block helpers\<close>

definition ascii_bytes :: "string \<Rightarrow> bytes" where
  "ascii_bytes s = map (\<lambda>c. of_nat (of_char c)) s"

text \<open>
  \<^verbatim>\<open>int_to_bin(i)\<close> formats \<open>i % 256\<close> and \<open>int(i / 256)\<close> as two characters and
  encodes them as latin-1. The second character is outside latin-1 from 256 on, and
  outside the range of \<^verbatim>\<open>{:c}\<close> from \<open>0x110000\<close> on.
\<close>

definition int_to_bin :: "nat \<Rightarrow> error + bytes" where
  "int_to_bin i =
     (let i1 = i mod 256; i2 = i div 256
      in if i2 < 256 then Inr [of_nat i1, of_nat i2]
         else if i2 < 1114112 then Inl UnicodeEncodeError
         else Inl OverflowError)"

definition header_block :: bytes where
  "header_block = concat [ascii_bytes ''GIF'', ascii_bytes ''89a'']"

definition logical_screen_descriptor :: "image \<Rightarrow> bytes \<Rightarrow> error + bytes" where
  "logical_screen_descriptor img packed_bit =
     (case im_size img of (img_x, img_y) \<Rightarrow>
        (case int_to_bin img_x of
           Inl e \<Rightarrow> Inl e
         | Inr bx \<Rightarrow>
             (case int_to_bin img_y of
                Inl e \<Rightarrow> Inl e
              | Inr by \<Rightarrow> Inr (concat [bx, by, packed_bit, [0x00], [0x00]]))))"

definition application_ext :: "nat \<Rightarrow> error + bytes" where
  "application_ext loops =
     (case int_to_bin loops of
        Inl e \<Rightarrow> Inl e
      | Inr lp \<Rightarrow>
          Inr (concat [[0x21], [0xff], [0x0b], ascii_bytes ''NETSCAPE'', ascii_bytes ''2.0'',
                       [0x03], [0x01], lp, [0x00]]))"

section \<open>The encoder\<close>

text \<open>
  The sink \<^verbatim>\<open>handle\<close> is the list of the byte strings written so far, in order. A
  run returns the sink together with the exception that ended it, if any: what was
  written before a failure stays written.
\<close>

type_synonym sink = "bytes list"

definition index :: "'a list \<Rightarrow> nat \<Rightarrow> error + 'a" where
  "index xs i = (if i < length xs then Inr (xs ! i) else Inl IndexError)"

text \<open>The first branch of the loop body (\<^verbatim>\<open>if not prev_frame\<close>).\<close>

definition write_first :: "codec \<Rightarrow> sink \<Rightarrow> image \<Rightarrow> sink \<times> error option" where
  "write_first cd h img =
     (case getheader cd img of
        Inl e \<Rightarrow> (h, Some e)
      | Inr header \<Rightarrow>
          (let h1 = h @ [header_block] in
           case index header 1 of
             Inl e \<Rightarrow> (h1, Some e)
           | Inr packed \<Rightarrow>
               (case logical_screen_descriptor img packed of
                  Inl e \<Rightarrow> (h1, Some e)
                | Inr lsd \<Rightarrow>
                    (let h2 = h1 @ [lsd] in
                     case index header 3 of
                       Inl e \<Rightarrow> (h2, Some e)
                     | Inr pal \<Rightarrow>
                         (let h3 = h2 @ [pal] in
                          case application_ext 0 of
                            Inl e \<Rightarrow> (h3, Some e)
                          | Inr ext \<Rightarrow>
                              (let h4 = h3 @ [ext] in
                               case getdata cd img (0, 0) of
                                 Inl e \<Rightarrow> (h4, Some e)
                               | Inr blocks \<Rightarrow> (h4 @ blocks, None)))))))"

text \<open>
  The second branch: the data blocks of a later canvas, computed in full before
  any of them is written.
\<close>

definition delta_data :: "codec \<Rightarrow> image \<Rightarrow> image \<Rightarrow> error + bytes list" where
  "delta_data cd prev_frame img =
     (let delta = subtract_modulo img prev_frame;
          bbox = getbbox delta
      in case bbox of
           None \<Rightarrow> Inr []
         | Some (x0, y0, x1, y1) \<Rightarrow> getdata cd (crop img (x0, y0, x1, y1)) (x0, y0))"

definition write_delta :: "codec \<Rightarrow> sink \<Rightarrow> image \<Rightarrow> image \<Rightarrow> sink \<times> error option" where
  "write_delta cd h prev_frame img =
     (case delta_data cd prev_frame img of
        Inl e \<Rightarrow> (h, Some e)
      | Inr blocks \<Rightarrow> (h @ blocks, None))"

definition write_frame :: "codec \<Rightarrow> sink \<Rightarrow> image option \<Rightarrow> image \<Rightarrow> sink \<times> error option" where
  "write_frame cd h prev_frame img =
     (case prev_frame of
        None \<Rightarrow> write_first cd h img
      | Some p \<Rightarrow> write_delta cd h p img)"

text \<open>The \<^verbatim>\<open>for\<close> loop, with \<^verbatim>\<open>prev_frame\<close> and the sink as its state.\<close>

fun write_loop :: "codec \<Rightarrow> sink \<Rightarrow> image option \<Rightarrow> image list \<Rightarrow> sink \<times> error option" where
  "write_loop cd h prev_frame [] = (h, None)"
| "write_loop cd h prev_frame (img # frames) =
     (case write_frame cd h prev_frame img of
        (h', Some e) \<Rightarrow> (h', Some e)
      | (h', None) \<Rightarrow> write_loop cd h' (Some (copy img)) frames)"

definition write_frames :: "codec \<Rightarrow> sink \<Rightarrow> image list \<Rightarrow> sink \<times> error option" where
  "write_frames cd h frames =
     (case write_loop cd h None frames of
        (h', Some e) \<Rightarrow> (h', Some e)
      | (h', None) \<Rightarrow> (h' @ [[0x3b]], None))"

section \<open>The animated source\<close>

text \<open>
  \<^verbatim>\<open>read_frames\<close> works on the imaging library's handle \<^verbatim>\<open>orig\<close> of an open GIF. The
  model keeps what the function reads from it. At every frame the handle shows an
  image of the size of the canvas: a palette index per pixel, the palette
  \<^verbatim>\<open>getpalette()\<close> returns (\<^verbatim>\<open>None\<close> when the frame has none), the transparent index,
  if any, and the tile list \<^verbatim>\<open>tile\<close>, of which only the extents \<^verbatim>\<open>tile[i][1]\<close> are
  kept. The handle is a cursor over its frames: the frames already passed, the current
  one and those to come.
\<close>

type_synonym palette = "byte \<Rightarrow> byte \<times> byte \<times> byte"

record source_frame =
  fr_palette :: "palette option"
  fr_tile :: "box list"
  fr_index :: "nat \<times> nat \<Rightarrow> byte"
  fr_transparency :: "byte option"

record source =
  src_size :: "nat \<times> nat"
  src_done :: "source_frame list"
  src_cur :: source_frame
  src_rest :: "source_frame list"

text \<open>
  \<^verbatim>\<open>tell()\<close> and \<^verbatim>\<open>seek(n)\<close>: seeking past the last frame raises \<^verbatim>\<open>EOFError\<close>.
\<close>

definition tell :: "source \<Rightarrow> nat" where
  "tell orig = length (src_done orig)"

definition seek :: "source \<Rightarrow> nat \<Rightarrow> error + source" where
  "seek orig n =
     (let frames = src_done orig @ src_cur orig # src_rest orig
      in if n < length frames
         then Inr (orig \<lparr> src_done := take n frames, src_cur := frames ! n,
                          src_rest := drop (Suc n) frames \<rparr>)
         else Inl EOFError)"

text \<open>
  Seeking to a frame sets the tile list of that frame; the first access to the pixels
  or to the palette loads the frame, and loading ends by emptying the tile list
  (\<^verbatim>\<open>self.tile = []\<close>).
\<close>

definition load :: "source \<Rightarrow> source" where
  "load orig = orig \<lparr> src_cur := (src_cur orig) \<lparr> fr_tile := [] \<rparr> \<rparr>"

text \<open>
  \<^verbatim>\<open>getpalette()\<close> and \<^verbatim>\<open>putpalette(data)\<close>. Both load the frame first, so
  \<open>getpalette\<close> returns the handle as well as the palette. \<^verbatim>\<open>putpalette\<close> converts its
  argument to bytes and raises \<^verbatim>\<open>TypeError\<close> on \<^verbatim>\<open>None\<close>.
\<close>

definition getpalette :: "source \<Rightarrow> palette option \<times> source" where
  "getpalette orig = (fr_palette (src_cur orig), load orig)"

definition putpalette :: "source \<Rightarrow> palette option \<Rightarrow> error + source" where
  "putpalette orig data =
     (case data of
        None \<Rightarrow> Inl TypeError
      | Some p \<Rightarrow> Inr ((load orig) \<lparr> src_cur := (src_cur (load orig)) \<lparr> fr_palette := Some p \<rparr> \<rparr>))"

text \<open>
  \<^verbatim>\<open>convert('RGBA')\<close>: every index is looked up in the palette (a grey level when there
  is none); the transparent index gets alpha 0, every other pixel alpha 255. The decoder
  calls it only on a frame that \<^verbatim>\<open>getpalette()\<close> has loaded already.
\<close>

definition convert_px :: "source_frame \<Rightarrow> nat \<times> nat \<Rightarrow> rgba" where
  "convert_px f xy =
     (let i = fr_index f xy;
          a = (if fr_transparency f = Some i then 0 else 255)
      in case fr_palette f of
           None \<Rightarrow> (i, i, i, a)
         | Some p \<Rightarrow> (case p i of (r, g, b) \<Rightarrow> (r, g, b, a)))"

definition convert_rgba :: "source \<Rightarrow> image" where
  "convert_rgba orig = \<lparr> im_size = src_size orig, im_px = convert_px (src_cur orig) \<rparr>"

text \<open>
  \<^verbatim>\<open>Image.paste(im)\<close> and \<^verbatim>\<open>Image.paste(im, (0, 0), mask)\<close>: the pasted image covers
  the region of its own size from the top-left corner; with a mask each channel is
  blended by the mask's alpha. Alpha 255 takes the pasted pixel and alpha 0 keeps the
  old one, which are the only two values \<^verbatim>\<open>convert('RGBA')\<close> produces here.
\<close>

definition inside :: "image \<Rightarrow> nat \<times> nat \<Rightarrow> bool" where
  "inside img xy = (fst xy < width img \<and> snd xy < height img)"

definition paste :: "image \<Rightarrow> image \<Rightarrow> image" where
  "paste dst src =
     dst \<lparr> im_px := (\<lambda>xy. if inside src xy then im_px src xy else im_px dst xy) \<rparr>"

definition blend :: "byte \<Rightarrow> byte \<Rightarrow> byte \<Rightarrow> byte" where
  "blend m s d = word_of_int ((uint s * uint m + uint d * (255 - uint m)) div 255)"

definition blend_px :: "byte \<Rightarrow> rgba \<Rightarrow> rgba \<Rightarrow> rgba" where
  "blend_px m s d =
     (case s of (r1, g1, b1, a1) \<Rightarrow>
        (case d of (r2, g2, b2, a2) \<Rightarrow>
           (blend m r1 r2, blend m g1 g2, blend m b1 b2, blend m a1 a2)))"

definition paste_mask :: "image \<Rightarrow> image \<Rightarrow> image \<Rightarrow> image" where
  "paste_mask dst src msk =
     dst \<lparr> im_px := (\<lambda>xy. if inside src xy
                             then blend_px (alpha (im_px msk xy)) (im_px src xy) (im_px dst xy)
                             else im_px dst xy) \<rparr>"

section \<open>The decoder\<close>

definition is_partial_frame :: "source \<Rightarrow> bool" where
  "is_partial_frame img =
     (case fr_tile (src_cur img) of
        [] \<Rightarrow> False
      | (x0, y0, x1, y1) # ts \<Rightarrow> (x1, y1) \<noteq> src_size img)"

text \<open>
  Canvases are objects: \<^verbatim>\<open>prev_frame = current_frame\<close> makes the two names one
  object, and the caller holds the same object after the \<^verbatim>\<open>yield\<close>. The store maps
  addresses to images; \<open>alloc\<close> is the creation of an image object that the decoder
  binds to a name (\<^verbatim>\<open>prev_frame\<close> or \<^verbatim>\<open>current_frame\<close>). The mask of the second
  \<^verbatim>\<open>paste\<close> is a temporary that nothing refers to afterwards and is not put in the
  store.
\<close>

type_synonym addr = nat

record heap =
  cells :: "addr \<Rightarrow> image"
  next_addr :: addr

definition alloc :: "image \<Rightarrow> heap \<Rightarrow> addr \<times> heap" where
  "alloc img hp =
     (next_addr hp, hp \<lparr> cells := (cells hp) (next_addr hp := img),
                          next_addr := Suc (next_addr hp) \<rparr>)"

definition update :: "addr \<Rightarrow> (image \<Rightarrow> image) \<Rightarrow> heap \<Rightarrow> heap" where
  "update a f hp = hp \<lparr> cells := (cells hp) (a := f (cells hp a)) \<rparr>"

text \<open>
  The loop body up to the \<^verbatim>\<open>yield\<close>: it returns the address of the new canvas, the
  handle (loaded, its palette may have been set) and the store. \<^verbatim>\<open>is_partial_frame\<close>
  is called on the handle as \<^verbatim>\<open>getpalette()\<close> has left it.
\<close>

definition frame_body ::
  "source \<Rightarrow> palette option \<Rightarrow> addr \<Rightarrow> heap \<Rightarrow> error + (addr \<times> source \<times> heap)" where
  "frame_body orig palette prev_frame hp =
     (case getpalette orig of
        (pal, orig0) \<Rightarrow>
          (case (case pal of None \<Rightarrow> putpalette orig0 palette | Some q \<Rightarrow> Inr orig0) of
             Inl e \<Rightarrow> Inl e
           | Inr orig1 \<Rightarrow>
               (case alloc (new_image (src_size orig1) (0, 0, 0, 0)) hp of
                  (current_frame, hp1) \<Rightarrow>
                    (let hp2 = (if is_partial_frame orig1
                                then update current_frame (\<lambda>cf. paste cf (cells hp1 prev_frame)) hp1
                                else hp1);
                         hp3 = update current_frame
                                 (\<lambda>cf. paste_mask cf (convert_rgba orig1) (convert_rgba orig1)) hp2
                     in Inr (current_frame, orig1, hp3)))))"

text \<open>
  The generator, run to its end. The caller is a \<open>consumer\<close>: what it does to the
  \<open>k\<close>-th canvas object once it has received it (the identity when it leaves the canvas
  alone). The result is the list of the canvases as they were yielded, the final store
  and the exception that ended the run, if any. \<^verbatim>\<open>EOFError\<close> from \<^verbatim>\<open>seek\<close> ends the
  loop; any other exception would propagate.
\<close>

type_synonym consumer = "nat \<Rightarrow> image \<Rightarrow> image"

function read_loop ::
  "consumer \<Rightarrow> nat \<Rightarrow> source \<Rightarrow> palette option \<Rightarrow> addr \<Rightarrow> heap
     \<Rightarrow> image list \<times> heap \<times> error option" where
  "read_loop c k orig palette prev_frame hp =
     (case frame_body orig palette prev_frame hp of
        Inl e \<Rightarrow> ([], hp, Some e)
      | Inr (current_frame, orig1, hp1) \<Rightarrow>
          (let img = cells hp1 current_frame;
               hp2 = update current_frame (c k) hp1
           in case seek orig1 (tell orig1 + 1) of
                Inl e \<Rightarrow> ([img], hp2, if e = EOFError then None else Some e)
              | Inr orig2 \<Rightarrow>
                  (case read_loop c (Suc k) orig2 palette current_frame hp2 of
                     (imgs, hp', r) \<Rightarrow> (img # imgs, hp', r))))"
  by pat_completeness auto
termination
proof (relation "measure (\<lambda>(c, k, orig, palette, prev_frame, hp). length (src_rest orig))")
  show "wf (measure (\<lambda>(c, k, orig, palette, prev_frame, hp). length (src_rest orig)))"
    by simp
next
  fix c :: consumer and k orig palette prev_frame hp t current_frame u orig1 hp1 img hp2 orig2
  assume body: "frame_body orig palette prev_frame hp = Inr t" "(current_frame, u) = t"
    "(orig1, hp1) = u"
    and sk: "seek orig1 (tell orig1 + 1) = Inr orig2"
  have "src_rest orig1 = src_rest orig"
    using body
    by (auto simp: frame_body_def getpalette_def putpalette_def load_def alloc_def Let_def
        split: sum.splits option.splits prod.splits)
  moreover have "length (src_rest orig2) < length (src_rest orig1)"
    using sk by (auto simp: seek_def tell_def Let_def split: if_splits)
  ultimately show "((c, Suc k, orig2, palette, current_frame, hp2),
      c, k, orig, palette, prev_frame, hp)
      \<in> measure (\<lambda>(c, k, orig, palette, prev_frame, hp). length (src_rest orig))"
    by simp
qed

declare read_loop.simps [simp del]

definition read_frames :: "consumer \<Rightarrow> source \<Rightarrow> heap \<Rightarrow> image list \<times> heap \<times> error option" where
  "read_frames c orig hp =
     (case getpalette orig of
        (palette, orig0) \<Rightarrow>
          (case alloc (convert_rgba orig0) hp of
             (prev_frame, hp1) \<Rightarrow> read_loop c 0 orig0 palette prev_frame hp1))"

definition idle :: consumer where
  "idle k img = img"

section \<open>What one step of the decoder computes\<close>

text \<open>
  The names the statements about the decoder use: a frame with the first frame's
  palette where it has none, the pixels that are not transparent, the handle after the
  palette has been looked at and after the seek, the canvas the loop body composes, and
  the store after an allocation.
\<close>

definition ensure_palette :: "palette \<Rightarrow> source_frame \<Rightarrow> source_frame" where
  "ensure_palette p f = (case fr_palette f of None \<Rightarrow> f \<lparr> fr_palette := Some p \<rparr> | Some q \<Rightarrow> f)"

definition opaque :: "source_frame \<Rightarrow> nat \<times> nat \<Rightarrow> bool" where
  "opaque f xy = (fr_transparency f \<noteq> Some (fr_index f xy))"

definition palette_step :: "source \<Rightarrow> palette option \<Rightarrow> error + source" where
  "palette_step orig palette =
     (case fr_palette (src_cur orig) of
        None \<Rightarrow> putpalette (load orig) palette
      | Some q \<Rightarrow> Inr (load orig))"

definition with_palette :: "palette \<Rightarrow> source \<Rightarrow> source" where
  "with_palette p orig = (load orig) \<lparr> src_cur := ensure_palette p (src_cur (load orig)) \<rparr>"

definition advance :: "source \<Rightarrow> source_frame \<Rightarrow> source_frame list \<Rightarrow> source" where
  "advance orig f fs = orig \<lparr> src_done := src_done orig @ [src_cur orig], src_cur := f, src_rest := fs \<rparr>"

definition canvas_of :: "source \<Rightarrow> image" where
  "canvas_of orig1 =
     paste_mask (new_image (src_size orig1) (0, 0, 0, 0)) (convert_rgba orig1) (convert_rgba orig1)"

definition push :: "heap \<Rightarrow> image \<Rightarrow> heap" where
  "push hp img = snd (alloc img hp)"

section \<open>Expected byte strings and sample inputs\<close>

text \<open>
  The bytes the helpers are expected to produce, written out, and the predicates the
  statements about the delta policy use.
\<close>

definition netscape_ext :: bytes where
  "netscape_ext = [0x21, 0xff, 0x0b, 0x4e, 0x45, 0x54, 0x53, 0x43, 0x41, 0x50, 0x45,
                   0x32, 0x2e, 0x30, 0x03, 0x01, 0x00, 0x00, 0x00]"

definition screen_bytes :: "image \<Rightarrow> bytes \<Rightarrow> bytes" where
  "screen_bytes img packed =
     [of_nat (width img mod 256), of_nat (width img div 256),
      of_nat (height img mod 256), of_nat (height img div 256)] @ packed @ [0x00, 0x00]"

text \<open>
  The codec encodes a non-empty sequence: the header of the first canvas has its four
  pieces, the canvas fits the two-byte width and height, and the data of the first canvas
  and of every later canvas against its predecessor are produced without an error.
\<close>

definition encodes ::
  "codec \<Rightarrow> image \<Rightarrow> image list \<Rightarrow> bytes list \<Rightarrow> bytes list \<Rightarrow> bytes list list \<Rightarrow> bool" where
  "encodes cd f fs header first_blocks bss =
     (getheader cd f = Inr header \<and> 3 < length header
      \<and> width f < 65536 \<and> height f < 65536
      \<and> getdata cd f (0, 0) = Inr first_blocks
      \<and> length bss = length fs
      \<and> list_all (\<lambda>i. delta_data cd ((f # fs) ! i) (fs ! i) = Inr (bss ! i)) [0..<length fs])"




text \<open>
  A lossless stand-in for the codec, used to run the encoder on concrete canvases: a
  fixed four-piece header, and for every image one descriptor block holding the
  declared offset and size followed by one block with the raw pixels.
\<close>

definition raster :: "image \<Rightarrow> bytes" where
  "raster img =
     concat (map (\<lambda>y. concat (map (\<lambda>x. case im_px img (x, y) of (r, g, b, a) \<Rightarrow> [r, g, b, a])
                                  [0..<width img]))
                 [0..<height img])"

definition raw_codec :: codec where
  "raw_codec =
     \<lparr> getheader = (\<lambda>img. Inr [[0x47], [0x80], [0x00, 0x00], [0, 0, 0, 255, 255, 255]]),
       getdata = (\<lambda>img off.
          Inr [[0x2c, of_nat (fst off), of_nat (snd off), of_nat (width img), of_nat (height img)],
               raster img]) \<rparr>"

text \<open>
  Sample canvases: \<open>canvas_a\<close> is 2 by 1 and red, \<open>canvas_b\<close> differs from it at (1, 0);
  \<open>canvas_c\<close> is 3 by 1 and red, \<open>canvas_d\<close> differs from it at (2, 0). The changed
  pixel differs from red in the red, green and alpha channels. \<open>canvas_e\<close> differs from
  \<open>canvas_c\<close> at (2, 0) in the red and green channels only.
\<close>

definition red :: rgba where "red = (255, 0, 0, 255)"

definition mark :: rgba where "mark = (0, 255, 0, 128)"

definition canvas_a :: image where
  "canvas_a = new_image (2, 1) red"

definition canvas_b :: image where
  "canvas_b = putpixel (new_image (2, 1) red) (1, 0) mark"

definition canvas_c :: image where
  "canvas_c = new_image (3, 1) red"


definition canvas_e :: image where
  "canvas_e = putpixel (new_image (3, 1) red) (2, 0) (0, 255, 0, 255)"

text \<open>
  Sample sources, all with the palette red, green, blue for the indices 0, 1, 2.
  \<open>patch_source\<close> has a 3 by 1 canvas: a first frame of index 0 with its own palette,
  and a second frame without a palette whose tile covers the two left pixels, with index
  1 at (0, 0) and the transparent index 2 at (1, 0). \<open>gray_source\<close> has one frame and
  no palette at all. \<open>hole_source\<close> has a 3 by 1 canvas: its first frame shows red,
  red, blue and has no transparent index; its second frame has no palette, its tile
  covers the two left pixels, index 2 is its transparent index, and the handle shows
  index 1 at (0, 0) and index 2 at (1, 0), inside the tile, and at (2, 0), outside it.
\<close>

definition empty_heap :: heap where
  "empty_heap = \<lparr> cells = (\<lambda>a. new_image (0, 0) (0, 0, 0, 0)), next_addr = 0 \<rparr>"

definition rgb_palette :: palette where
  "rgb_palette i = (if i = 0 then (255, 0, 0) else if i = 1 then (0, 255, 0) else (0, 0, 255))"

definition frame_full :: source_frame where
  "frame_full =
     \<lparr> fr_palette = Some rgb_palette, fr_tile = [(0, 0, 3, 1)],
       fr_index = (\<lambda>xy. 0), fr_transparency = None \<rparr>"

definition frame_patch :: source_frame where
  "frame_patch =
     \<lparr> fr_palette = None, fr_tile = [(0, 0, 2, 1)],
       fr_index = (\<lambda>xy. if xy = (0, 0) then 1 else if xy = (1, 0) then 2 else 0),
       fr_transparency = Some 2 \<rparr>"

definition patch_source :: source where
  "patch_source =
     \<lparr> src_size = (3, 1), src_done = [], src_cur = frame_full, src_rest = [frame_patch] \<rparr>"

definition gray_source :: source where
  "gray_source =
     \<lparr> src_size = (1, 1), src_done = [],
       src_cur = \<lparr> fr_palette = None, fr_tile = [(0, 0, 1, 1)],
                   fr_index = (\<lambda>xy. 0), fr_transparency = None \<rparr>,
       src_rest = [] \<rparr>"

definition hole_first :: source_frame where
  "hole_first =
     \<lparr> fr_palette = Some rgb_palette, fr_tile = [(0, 0, 3, 1)],
       fr_index = (\<lambda>xy. if xy = (2, 0) then 2 else 0), fr_transparency = None \<rparr>"

definition hole_patch :: source_frame where
  "hole_patch =
     \<lparr> fr_palette = None, fr_tile = [(0, 0, 2, 1)],
       fr_index = (\<lambda>xy. if xy = (0, 0) then 1 else 2), fr_transparency = Some 2 \<rparr>"

definition hole_source :: source where
  "hole_source =
     \<lparr> src_size = (3, 1), src_done = [], src_cur = hole_first, src_rest = [hole_patch] \<rparr>"

section \<open>Properties of the bounding box\<close>

lemma used_cols_iff:
  "x \<in> set (used_cols img) \<longleftrightarrow> x < width img \<and> (\<exists>y<height img. nonzero (im_px img (x, y)))"
  by (auto simp: used_cols_def list_ex_iff)

lemma used_rows_iff:
  "y \<in> set (used_rows img) \<longleftrightarrow> y < height img \<and> (\<exists>x<width img. nonzero (im_px img (x, y)))"
  by (auto simp: used_rows_def list_ex_iff)




lemma getbbox_None_iff:
  "getbbox img = None \<longleftrightarrow> (\<forall>x<width img. \<forall>y<height img. \<not> nonzero (im_px img (x, y)))"
proof -
  have c: "used_cols img = [] \<longleftrightarrow> (\<forall>x<width img. \<forall>y<height img. \<not> nonzero (im_px img (x, y)))"
    using used_cols_iff [of _ img] by (metis all_not_in_conv set_empty)
  have r: "used_rows img = [] \<longleftrightarrow> (\<forall>x<width img. \<forall>y<height img. \<not> nonzero (im_px img (x, y)))"
    using used_rows_iff [of _ img] by (metis all_not_in_conv set_empty)
  show ?thesis
    using c r by (auto simp: getbbox_def split: list.splits)
qed


lemma nonzero_sub_px: "nonzero (sub_px p q) \<longleftrightarrow> alpha p \<noteq> alpha q"
  by (cases p; cases q) (auto simp: nonzero_def sub_px_def alpha_def)

lemma delta_bbox_None_iff:
  "getbbox (subtract_modulo b a) = None \<longleftrightarrow>
   (\<forall>x<min (width b) (width a). \<forall>y<min (height b) (height a).
      alpha (im_px b (x, y)) = alpha (im_px a (x, y)))"
  by (simp add: getbbox_None_iff subtract_modulo_def width_def height_def nonzero_sub_px)




section \<open>Properties of the block helpers and of the encoder loop\<close>

lemma header_block_bytes: "header_block = [0x47, 0x49, 0x46, 0x38, 0x39, 0x61]"
  by (simp add: header_block_def ascii_bytes_def)

lemma int_to_bin_ok:
  "i < 65536 \<Longrightarrow> int_to_bin i = Inr [of_nat (i mod 256), of_nat (i div 256)]"
  by (simp add: int_to_bin_def Let_def)

lemma application_ext_0: "application_ext 0 = Inr netscape_ext"
  by (simp add: application_ext_def int_to_bin_def netscape_ext_def ascii_bytes_def)

lemma logical_screen_descriptor_ok:
  "width img < 65536 \<Longrightarrow> height img < 65536 \<Longrightarrow>
   logical_screen_descriptor img packed = Inr (screen_bytes img packed)"
  by (cases "im_size img")
    (simp add: logical_screen_descriptor_def screen_bytes_def width_def height_def int_to_bin_ok)

lemma int_to_bin_Inr: "int_to_bin i = Inr bs \<Longrightarrow> i < 65536"
  by (auto simp: int_to_bin_def Let_def split: if_splits)

lemma write_first_ok:
  assumes "getheader cd img = Inr header" and "3 < length header"
    and "width img < 65536" and "height img < 65536"
    and "getdata cd img (0, 0) = Inr blocks"
  shows "write_first cd h img =
           (h @ [header_block, screen_bytes img (header ! 1), header ! 3, netscape_ext] @ blocks, None)"
  using assms
  by (simp add: write_first_def index_def logical_screen_descriptor_ok application_ext_0)

lemma write_first_only_if:
  assumes "write_first cd h img = (h', None)"
  shows "\<exists>header blocks. getheader cd img = Inr header \<and> 3 < length header
      \<and> width img < 65536 \<and> height img < 65536 \<and> getdata cd img (0, 0) = Inr blocks"
proof -
  from assms obtain header packed lsd pal ext blocks where
    a: "getheader cd img = Inr header" "index header 1 = Inr packed"
      "logical_screen_descriptor img packed = Inr lsd" "index header 3 = Inr pal"
      "getdata cd img (0, 0) = Inr blocks"
    by (auto simp: write_first_def Let_def split: sum.splits)
  have l: "3 < length header" using a(4) by (auto simp: index_def split: if_splits)
  obtain w hh where sz: "im_size img = (w, hh)" by (cases "im_size img") auto
  from a(3) sz have "w < 65536 \<and> hh < 65536"
    by (auto simp: logical_screen_descriptor_def split: sum.splits dest: int_to_bin_Inr)
  then show ?thesis using a l sz by (auto simp: width_def height_def)
qed

lemma write_loop_delta_ok:
  "length bss = length fs \<Longrightarrow>
   (\<forall>i<length fs. delta_data cd ((p # fs) ! i) (fs ! i) = Inr (bss ! i)) \<Longrightarrow>
   write_loop cd h (Some p) fs = (h @ concat bss, None)"
proof (induction fs arbitrary: p h bss)
  case Nil
  then show ?case by simp
next
  case (Cons f fs)
  then obtain bs bss' where bss: "bss = bs # bss'" by (cases bss) auto
  have d: "delta_data cd p f = Inr bs"
    using Cons.prems(2) bss by (auto dest: spec [of _ 0])
  have rest: "\<forall>i<length fs. delta_data cd ((f # fs) ! i) (fs ! i) = Inr (bss' ! i)"
  proof (intro allI impI)
    fix i assume "i < length fs"
    then show "delta_data cd ((f # fs) ! i) (fs ! i) = Inr (bss' ! i)"
      using Cons.prems(2) bss by (auto dest: spec [of _ "Suc i"])
  qed
  have "write_loop cd (h @ bs) (Some f) fs = (h @ bs @ concat bss', None)"
    using Cons.IH [of bss' f "h @ bs"] Cons.prems(1) bss rest by simp
  then show ?case
    using d bss by (simp add: write_frame_def write_delta_def copy_def)
qed

lemma write_loop_delta_only_if:
  "write_loop cd h (Some p) fs = (out, None) \<Longrightarrow>
   \<exists>bss. length bss = length fs
     \<and> (\<forall>i<length fs. delta_data cd ((p # fs) ! i) (fs ! i) = Inr (bss ! i))"
proof (induction fs arbitrary: p h)
  case Nil
  then show ?case by simp
next
  case (Cons f fs)
  from Cons.prems obtain bs where d: "delta_data cd p f = Inr bs"
    and rest: "write_loop cd (h @ bs) (Some f) fs = (out, None)"
    by (auto simp: write_frame_def write_delta_def copy_def split: sum.splits prod.splits option.splits)
  from Cons.IH [OF rest] obtain bss where
    l: "length bss = length fs"
    and a: "\<forall>i<length fs. delta_data cd ((f # fs) ! i) (fs ! i) = Inr (bss ! i)" by blast
  have "\<forall>i<length (f # fs). delta_data cd ((p # f # fs) ! i) ((f # fs) ! i) = Inr ((bs # bss) ! i)"
  proof (intro allI impI)
    fix i assume "i < length (f # fs)"
    then show "delta_data cd ((p # f # fs) ! i) ((f # fs) ! i) = Inr ((bs # bss) ! i)"
      using d a by (cases i) auto
  qed
  then show ?case using l by (intro exI [of _ "bs # bss"]) simp
qed

lemma write_frames_only_if:
  assumes "snd (write_frames cd h (f # fs)) = None"
  shows "\<exists>header first_blocks bss. encodes cd f fs header first_blocks bss"
proof -
  obtain out where lp: "write_loop cd h None (f # fs) = (out, None)"
    using assms
    by (cases "write_loop cd h None (f # fs)") (auto simp: write_frames_def split: option.splits)
  then obtain h1 where first: "write_first cd h f = (h1, None)"
    and rest: "write_loop cd h1 (Some f) fs = (out, None)"
    by (auto simp: write_frame_def copy_def split: prod.splits option.splits)
  from write_first_only_if [OF first] write_loop_delta_only_if [OF rest]
  show ?thesis
    by (auto simp: encodes_def list_all_iff)
qed

lemma write_loop_append:
  "write_loop cd h prev (xs @ ys) =
     (case write_loop cd h prev xs of
        (h', Some e) \<Rightarrow> (h', Some e)
      | (h', None) \<Rightarrow> write_loop cd h' (if xs = [] then prev else Some (last xs)) ys)"
  by (induction xs arbitrary: h prev) (auto simp: copy_def split: prod.splits option.splits)


section \<open>The encoder on the sample canvases\<close>

lemma raw_simps:
  "getheader raw_codec img = Inr [[0x47], [0x80], [0x00, 0x00], [0, 0, 0, 255, 255, 255]]"
  "getdata raw_codec img off =
     Inr [[0x2c, of_nat (fst off), of_nat (snd off), of_nat (width img), of_nat (height img)],
          raster img]"
  by (simp_all add: raw_codec_def)

lemma delta_a_a: "delta_data raw_codec canvas_a canvas_a = Inr []"
  by code_simp

lemma delta_a_b: "delta_data raw_codec canvas_a canvas_b = Inr [[0x2c, 1, 0, 1, 1], [0, 255, 0, 128]]"
  by code_simp

lemma canvas_a_data: "getdata raw_codec canvas_a (0, 0) = Inr [[0x2c, 0, 0, 2, 1], [255, 0, 0, 255, 255, 0, 0, 255]]"
  by code_simp

lemma canvas_a_header: "getheader raw_codec canvas_a = Inr [[0x47], [0x80], [0x00, 0x00], [0, 0, 0, 255, 255, 255]]"
  by code_simp

lemma canvas_a_size: "width canvas_a < 65536" "height canvas_a < 65536" "width canvas_a = 2" "height canvas_a = 1"
  by (simp_all add: canvas_a_def new_image_def width_def height_def)

lemma encodes_sample:
  "encodes raw_codec canvas_a [canvas_a, canvas_b]
     [[0x47], [0x80], [0x00, 0x00], [0, 0, 0, 255, 255, 255]]
     [[0x2c, 0, 0, 2, 1], [255, 0, 0, 255, 255, 0, 0, 255]]
     [[], [[0x2c, 1, 0, 1, 1], [0, 255, 0, 128]]]"
  by (simp add: encodes_def canvas_a_header canvas_a_size canvas_a_data delta_a_a delta_a_b)



section \<open>The claims about the encoder\<close>

text \<open>
  Claim C10. For the empty input sequence \<^verbatim>\<open>write_frames\<close> writes exactly one byte
  to the sink, the trailer \<open>0x3B\<close>: the loop body never runs, so no signature, screen
  descriptor, colour table or application extension is written, and the output does not
  begin with the six signature bytes a GIF stream starts with.
\<close>

theorem write_frames_empty:
  "write_frames cd h [] = (h @ [[0x3b]], None)
   \<and> concat (fst (write_frames cd [] [])) = [0x3b]
   \<and> length (concat (fst (write_frames cd [] []))) = 1
   \<and> take 6 (concat (fst (write_frames cd [] []))) \<noteq> header_block"
  by (simp add: write_frames_def header_block_bytes)

text \<open>
  Claim C1. For two pixel-identical canvases \<open>a\<close> and \<open>b\<close> the modulo difference has
  an empty bounding box, the second canvas contributes nothing (the run on \<open>[a, b]\<close>
  is the run on \<open>[a]\<close>), and when the codec encodes \<open>a\<close> the sink receives the four
  header blocks, the data blocks of \<open>a\<close> in full, and the trailer byte: exactly one
  frame's data.
\<close>

theorem identical_canvas_dropped:
  assumes "im_size b = im_size a"
    and "\<forall>x<width a. \<forall>y<height a. im_px b (x, y) = im_px a (x, y)"
  shows "getbbox (subtract_modulo b a) = None
     \<and> write_frames cd h [a, b] = write_frames cd h [a]
     \<and> (getheader cd a = Inr header \<and> 3 < length header
          \<and> width a < 65536 \<and> height a < 65536 \<and> getdata cd a (0, 0) = Inr blocks \<longrightarrow>
        write_frames cd h [a, b] =
          (h @ [header_block, screen_bytes a (header ! 1), header ! 3, netscape_ext]
             @ blocks @ [[0x3b]], None))"
proof -
  have bb: "getbbox (subtract_modulo b a) = None"
    using assms by (auto simp: delta_bbox_None_iff width_def height_def)
  then have d: "write_delta cd h' a b = (h', None)" for h'
    by (simp add: write_delta_def delta_data_def)
  have same: "write_frames cd h [a, b] = write_frames cd h [a]"
    by (auto simp: write_frames_def write_frame_def copy_def d split: prod.splits option.splits)
  have "write_frames cd h [a, b] =
          (h @ [header_block, screen_bytes a (header ! 1), header ! 3, netscape_ext]
             @ blocks @ [[0x3b]], None)"
    if "getheader cd a = Inr header" "3 < length header" "width a < 65536" "height a < 65536"
      "getdata cd a (0, 0) = Inr blocks"
    unfolding same using write_first_ok [OF that, of h]
    by (simp add: write_frames_def write_frame_def)
  with bb same show ?thesis by blast
qed

text \<open>
  The theorem at two red 2 by 1 canvases, with the stand-in codec.
\<close>

theorem identical_canvas_dropped_witness:
  "write_frames raw_codec [] [new_image (2, 1) red, new_image (2, 1) red] =
     ([[0x47, 0x49, 0x46, 0x38, 0x39, 0x61], [2, 0, 1, 0, 0x80, 0, 0], [0, 0, 0, 255, 255, 255],
       netscape_ext, [0x2c, 0, 0, 2, 1], [255, 0, 0, 255, 255, 0, 0, 255], [0x3b]], None)
   \<and> write_frames raw_codec [] [new_image (2, 1) red, new_image (2, 1) red] =
       write_frames raw_codec [] [new_image (2, 1) red]"
  using identical_canvas_dropped [where a = "new_image (2, 1) red" and b = "new_image (2, 1) red"
      and cd = raw_codec and h = "[]"
      and header = "[[0x47], [0x80], [0x00, 0x00], [0, 0, 0, 255, 255, 255]]"
      and blocks = "[[0x2c, 0, 0, 2, 1], [255, 0, 0, 255, 255, 0, 0, 255]]"]
  by (auto simp: raw_simps raster_def new_image_def width_def height_def red_def
      header_block_bytes screen_bytes_def upt_rec)

text \<open>
  Claim C6. The comparison baseline of every canvas after the first is the canvas
  literally before it in the input: once the loop has gone through any prefix ending in
  \<open>x\<close> without an error, the next canvas \<open>y\<close> is written by \<open>write_delta\<close> against \<open>x\<close>
  itself, whether or not a block was written for \<open>x\<close>, and \<open>y\<close> is the baseline of the
  canvases after it.
\<close>

theorem baseline_is_previous_canvas:
  "write_loop cd h None (xs @ x # y # ys) =
     (case write_loop cd h None (xs @ [x]) of
        (h', Some e) \<Rightarrow> (h', Some e)
      | (h', None) \<Rightarrow>
          (case write_delta cd h' x y of
             (h'', Some e) \<Rightarrow> (h'', Some e)
           | (h'', None) \<Rightarrow> write_loop cd h'' (Some y) ys))"
proof -
  have "write_loop cd h None ((xs @ [x]) @ y # ys) =
     (case write_loop cd h None (xs @ [x]) of
        (h', Some e) \<Rightarrow> (h', Some e)
      | (h', None) \<Rightarrow> write_loop cd h' (Some x) (y # ys))"
    by (subst write_loop_append) simp
  then show ?thesis
    by (simp add: write_frame_def copy_def split: prod.splits option.splits)
qed

text \<open>
  Claim C7. On a non-empty input sequence \<^verbatim>\<open>write_frames\<close> ends normally exactly
  when the codec encodes the sequence and the first canvas is less than 65536 wide and
  high. The sink then receives, in order: the signature \<open>GIF\<close> and the version \<open>89a\<close>;
  the screen descriptor (width and height as two little-endian bytes each, the packed
  flags taken from piece 1 of the first canvas's header, a zero background index and a
  zero aspect ratio: 7 bytes when the flags are one byte); the colour table, piece 3 of
  that header; the 19-byte application extension \<open>0x21 0xFF 0x0B NETSCAPE2.0 0x03 0x01\<close>,
  loop count 0, \<open>0x00\<close>; the data blocks of the first canvas and of each later canvas
  (none for a dropped one); and the trailer \<open>0x3B\<close>.
\<close>

theorem write_frames_stream_layout:
  "(snd (write_frames cd h (f # fs)) = None) =
     (\<exists>header first_blocks bss. encodes cd f fs header first_blocks bss)
   \<and> (encodes cd f fs header first_blocks bss \<longrightarrow>
        write_frames cd h (f # fs) =
          (h @ [header_block, screen_bytes f (header ! 1), header ! 3, netscape_ext]
             @ first_blocks @ concat bss @ [[0x3b]], None)
      \<and> concat (fst (write_frames cd [] (f # fs))) =
           [0x47, 0x49, 0x46] @ [0x38, 0x39, 0x61]
           @ ([of_nat (width f mod 256), of_nat (width f div 256),
               of_nat (height f mod 256), of_nat (height f div 256)] @ header ! 1 @ [0x00, 0x00])
           @ header ! 3
           @ ([0x21, 0xff, 0x0b] @ ascii_bytes ''NETSCAPE2.0'' @ [0x03, 0x01] @ [0x00, 0x00] @ [0x00])
           @ concat first_blocks @ concat (concat bss) @ [0x3b]
      \<and> (length (header ! 1) = 1 \<longrightarrow> length (screen_bytes f (header ! 1)) = 7))
   \<and> length netscape_ext = 19"
proof -
  have out: "write_frames cd h' (f # fs) =
           (h' @ [header_block, screen_bytes f (header ! 1), header ! 3, netscape_ext]
              @ first_blocks @ concat bss @ [[0x3b]], None)"
    if e: "encodes cd f fs header first_blocks bss" for h' header first_blocks bss
  proof -
    from e have c: "getheader cd f = Inr header" "3 < length header"
      "width f < 65536" "height f < 65536" "getdata cd f (0, 0) = Inr first_blocks"
      and l: "length bss = length fs"
      and d: "\<forall>i<length fs. delta_data cd ((f # fs) ! i) (fs ! i) = Inr (bss ! i)"
      by (simp_all add: encodes_def list_all_iff)
    have first: "write_first cd h' f =
        (h' @ [header_block, screen_bytes f (header ! 1), header ! 3, netscape_ext] @ first_blocks, None)"
      using write_first_ok [OF c, of h'] by simp
    have loop: "write_loop cd h'' (Some f) fs = (h'' @ concat bss, None)" for h''
      using write_loop_delta_ok [OF l d] .
    show ?thesis
      by (simp add: write_frames_def write_frame_def copy_def first loop)
  qed
  have iff: "(snd (write_frames cd h (f # fs)) = None) =
     (\<exists>header first_blocks bss. encodes cd f fs header first_blocks bss)"
    using write_frames_only_if [of cd h f fs] out [of _ _ _ h] by auto
  have layout: "concat (fst (write_frames cd [] (f # fs))) =
           [0x47, 0x49, 0x46] @ [0x38, 0x39, 0x61]
           @ ([of_nat (width f mod 256), of_nat (width f div 256),
               of_nat (height f mod 256), of_nat (height f div 256)] @ header ! 1 @ [0x00, 0x00])
           @ header ! 3
           @ ([0x21, 0xff, 0x0b] @ ascii_bytes ''NETSCAPE2.0'' @ [0x03, 0x01] @ [0x00, 0x00] @ [0x00])
           @ concat first_blocks @ concat (concat bss) @ [0x3b]"
    if e: "encodes cd f fs header first_blocks bss"
    unfolding out [OF e]
    by (simp add: header_block_bytes screen_bytes_def netscape_ext_def ascii_bytes_def)
  have seven: "length (header ! 1) = 1 \<longrightarrow> length (screen_bytes f (header ! 1)) = 7"
    by (simp add: screen_bytes_def)
  have nineteen: "length netscape_ext = 19" by (simp add: netscape_ext_def)
  show ?thesis
    using iff out [of header first_blocks bss h] layout seven nineteen by blast
qed

text \<open>
  The theorem at red, red again (dropped) and a canvas with one changed pixel.
\<close>

theorem write_frames_stream_layout_witness:
  "write_frames raw_codec [] [canvas_a, canvas_a, canvas_b] =
     ([[0x47, 0x49, 0x46, 0x38, 0x39, 0x61], [2, 0, 1, 0, 0x80, 0, 0], [0, 0, 0, 255, 255, 255],
       [0x21, 0xff, 0x0b, 0x4e, 0x45, 0x54, 0x53, 0x43, 0x41, 0x50, 0x45,
        0x32, 0x2e, 0x30, 0x03, 0x01, 0x00, 0x00, 0x00],
       [0x2c, 0, 0, 2, 1], [255, 0, 0, 255, 255, 0, 0, 255],
       [0x2c, 1, 0, 1, 1], [0, 255, 0, 128], [0x3b]], None)"
proof -
  have "write_frames raw_codec [] (canvas_a # [canvas_a, canvas_b]) =
          ([] @ [header_block,
                 screen_bytes canvas_a ([[0x47], [0x80], [0x00, 0x00], [0, 0, 0, 255, 255, 255]] ! 1),
                 [[0x47], [0x80], [0x00, 0x00], [0, 0, 0, 255, 255, 255]] ! 3, netscape_ext]
             @ [[0x2c, 0, 0, 2, 1], [255, 0, 0, 255, 255, 0, 0, 255]]
             @ concat [[], [[0x2c, 1, 0, 1, 1], [0, 255, 0, 128]]] @ [[0x3b]], None)"
    using write_frames_stream_layout [of raw_codec "[]" canvas_a "[canvas_a, canvas_b]"
        "[[0x47], [0x80], [0x00, 0x00], [0, 0, 0, 255, 255, 255]]"
        "[[0x2c, 0, 0, 2, 1], [255, 0, 0, 255, 255, 0, 0, 255]]"
        "[[], [[0x2c, 1, 0, 1, 1], [0, 255, 0, 128]]]"] encodes_sample
    by blast
  then show ?thesis
    by (simp add: header_block_bytes screen_bytes_def netscape_ext_def canvas_a_size)
qed




text \<open>
  A change of colour alone is not seen by the encoder: \<open>canvas_e\<close> differs from
  \<open>canvas_c\<close> at (2, 0) in the red and green channels and has the same alpha there, the
  modulo difference has alpha 0 everywhere, and no block is written for \<open>canvas_e\<close>.
\<close>

theorem colour_only_change_dropped:
  "im_px canvas_e (2, 0) \<noteq> im_px canvas_c (2, 0)
   \<and> getbbox (subtract_modulo canvas_e canvas_c) = None
   \<and> write_frames raw_codec [] [canvas_c, canvas_e] =
       ([[0x47, 0x49, 0x46, 0x38, 0x39, 0x61], [3, 0, 1, 0, 0x80, 0, 0], [0, 0, 0, 255, 255, 255],
         [0x21, 0xff, 0x0b, 0x4e, 0x45, 0x54, 0x53, 0x43, 0x41, 0x50, 0x45,
          0x32, 0x2e, 0x30, 0x03, 0x01, 0x00, 0x00, 0x00],
         [0x2c, 0, 0, 3, 1], [255, 0, 0, 255, 255, 0, 0, 255, 255, 0, 0, 255],
         [0x3b]], None)"
  by code_simp




section \<open>Properties of the source and of the loop body\<close>

lemma seek_next_Nil:
  "src_rest orig = [] \<Longrightarrow> seek orig (Suc (tell orig)) = Inl EOFError"
  by (simp add: seek_def tell_def)

lemma seek_next_Cons:
  "src_rest orig = f # fs \<Longrightarrow> seek orig (Suc (tell orig)) = Inr (advance orig f fs)"
  by (simp add: seek_def tell_def Let_def nth_append advance_def)

lemma seek_next_EOF_iff:
  "seek orig (Suc (tell orig)) = Inl EOFError \<longleftrightarrow> src_rest orig = []"
  by (cases "src_rest orig") (simp_all add: seek_next_Nil seek_next_Cons)

lemma blend_255: "blend 255 s d = s"
  by (simp add: blend_def)

lemma blend_0: "blend 0 s d = d"
  by (simp add: blend_def)

lemma blend_px_255: "blend_px 255 s d = s"
  by (cases s; cases d) (simp add: blend_px_def blend_255)

lemma blend_px_0: "blend_px 0 s d = d"
  by (cases s; cases d) (simp add: blend_px_def blend_0)

lemma alpha_convert_px:
  "alpha (convert_px f xy) = (if opaque f xy then 255 else 0)"
  by (auto simp: alpha_def convert_px_def opaque_def Let_def split: option.splits prod.splits)

lemma load_simps:
  "src_size (load orig) = src_size orig"
  "src_rest (load orig) = src_rest orig"
  "src_done (load orig) = src_done orig"
  "fr_tile (src_cur (load orig)) = []"
  "fr_palette (src_cur (load orig)) = fr_palette (src_cur orig)"
  "convert_px (src_cur (load orig)) = convert_px (src_cur orig)"
  "opaque (src_cur (load orig)) = opaque (src_cur orig)"
  by (simp_all add: load_def convert_px_def opaque_def fun_eq_iff)

lemma load_load: "load (load orig) = load orig"
  by (simp add: load_def)

lemma ensure_palette_simps:
  "fr_tile (ensure_palette p f) = fr_tile f"
  "opaque (ensure_palette p f) xy = opaque f xy"
  by (cases "fr_palette f"; simp add: ensure_palette_def opaque_def)+

lemma convert_px_ensure_load:
  "convert_px (ensure_palette p (src_cur (load orig))) = convert_px (ensure_palette p (src_cur orig))"
  by (cases "fr_palette (src_cur orig)")
    (simp_all add: ensure_palette_def load_def convert_px_def fun_eq_iff)

lemma with_palette_simps:
  "src_size (with_palette p orig) = src_size orig"
  "src_rest (with_palette p orig) = src_rest orig"
  "src_done (with_palette p orig) = src_done orig"
  "fr_tile (src_cur (with_palette p orig)) = []"
  "convert_px (src_cur (with_palette p orig)) = convert_px (ensure_palette p (src_cur orig))"
  "opaque (src_cur (with_palette p orig)) xy = opaque (src_cur orig) xy"
  by (simp_all add: with_palette_def load_simps ensure_palette_simps convert_px_ensure_load)

lemma palette_step_Some: "palette_step orig (Some p) = Inr (with_palette p orig)"
  by (cases "fr_palette (src_cur orig)")
    (simp_all add: palette_step_def putpalette_def with_palette_def ensure_palette_def load_simps
      load_load)

lemma palette_step_None:
  "fr_palette (src_cur orig) = None \<Longrightarrow> palette_step orig None = Inl TypeError"
  by (simp add: palette_step_def putpalette_def)

lemma palette_step_error: "palette_step orig palette = Inl e \<Longrightarrow> e = TypeError"
  by (auto simp: palette_step_def putpalette_def split: option.splits)

lemma palette_step_loaded:
  "palette_step orig palette = Inr orig1 \<Longrightarrow>
   src_rest orig1 = src_rest orig \<and> src_done orig1 = src_done orig
   \<and> src_size orig1 = src_size orig \<and> fr_tile (src_cur orig1) = []"
  by (auto simp: palette_step_def putpalette_def load_simps split: option.splits)

lemma palette_step_load: "palette_step (load orig) palette = palette_step orig palette"
  by (cases "fr_palette (src_cur orig)") (simp_all add: palette_step_def load_simps load_load)

lemma heap_simps:
  "next_addr (push hp img) = Suc (next_addr hp)"
  "next_addr (update a f hp) = next_addr hp"
  "a = next_addr hp \<Longrightarrow> cells (push hp img) a = img"
  "a \<noteq> next_addr hp \<Longrightarrow> cells (push hp img) a = cells hp a"
  "cells (update a f hp) a = f (cells hp a)"
  "b \<noteq> a \<Longrightarrow> cells (update a f hp) b = cells hp b"
  by (simp_all add: push_def alloc_def update_def)

lemma advance_simps:
  "src_size (advance orig f fs) = src_size orig"
  "src_cur (advance orig f fs) = f"
  "src_rest (advance orig f fs) = fs"
  by (simp_all add: advance_def)

lemma frame_body_eq:
  "frame_body orig palette prev_frame hp =
     (case palette_step orig palette of
        Inl e \<Rightarrow> Inl e
      | Inr orig1 \<Rightarrow> Inr (next_addr hp, orig1, push hp (canvas_of orig1)))"
proof (cases "palette_step orig palette")
  case (Inl e)
  then show ?thesis
    by (simp add: frame_body_def getpalette_def palette_step_def split: option.splits)
next
  case (Inr orig1)
  have np: "\<not> is_partial_frame orig1"
    using palette_step_loaded [OF Inr] by (simp add: is_partial_frame_def)
  have "(case fr_palette (src_cur orig) of None \<Rightarrow> putpalette (load orig) palette
         | Some q \<Rightarrow> Inr (load orig)) = Inr orig1"
    using Inr by (simp add: palette_step_def)
  then show ?thesis
    using np Inr
    by (simp add: frame_body_def getpalette_def alloc_def update_def canvas_of_def push_def Let_def)
qed

lemma frame_body_rest:
  "frame_body orig palette prev_frame hp = Inr (cf, orig1, hp1) \<Longrightarrow>
   src_rest orig1 = src_rest orig \<and> src_done orig1 = src_done orig \<and> src_size orig1 = src_size orig"
  using palette_step_loaded [of orig palette orig1]
  by (auto simp: frame_body_eq split: sum.splits)

lemma canvas_of_size: "im_size (canvas_of orig1) = src_size orig1"
  by (simp add: canvas_of_def paste_mask_def new_image_def)

lemma canvas_of_px:
  assumes "fst xy < fst (src_size orig1)" and "snd xy < snd (src_size orig1)"
  shows "im_px (canvas_of orig1) xy =
           (if opaque (src_cur orig1) xy then convert_px (src_cur orig1) xy else (0, 0, 0, 0))"
  using assms
  by (simp add: canvas_of_def paste_mask_def new_image_def convert_rgba_def
      inside_def width_def height_def alpha_convert_px blend_px_255 blend_px_0)

section \<open>Properties of the decoder loop\<close>

lemma read_loop_unfold:
  "read_loop c k orig palette prev_frame hp =
     (case palette_step orig palette of
        Inl e \<Rightarrow> ([], hp, Some e)
      | Inr orig1 \<Rightarrow>
          (case src_rest orig of
             [] \<Rightarrow> ([canvas_of orig1], update (next_addr hp) (c k) (push hp (canvas_of orig1)), None)
           | f # fs \<Rightarrow>
               (case read_loop c (Suc k) (advance orig1 f fs) palette (next_addr hp)
                       (update (next_addr hp) (c k) (push hp (canvas_of orig1))) of
                  (imgs, hp', r) \<Rightarrow> (canvas_of orig1 # imgs, hp', r))))"
proof (cases "palette_step orig palette")
  case (Inl e)
  then show ?thesis
    by (subst read_loop.simps) (simp add: frame_body_eq)
next
  case (Inr orig1)
  note L = palette_step_loaded [OF Inr]
  show ?thesis
  proof (cases "src_rest orig")
    case Nil
    then have "seek orig1 (Suc (tell orig1)) = Inl EOFError"
      using L by (simp add: seek_next_Nil)
    then show ?thesis
      using Inr Nil by (subst read_loop.simps) (simp add: frame_body_eq Let_def heap_simps)
  next
    case (Cons f fs)
    then have "seek orig1 (Suc (tell orig1)) = Inr (advance orig1 f fs)"
      using L by (simp add: seek_next_Cons)
    then show ?thesis
      using Inr Cons by (subst read_loop.simps) (simp add: frame_body_eq Let_def heap_simps)
  qed
qed

lemma read_loop_yields:
  "\<exists>imgs hp'. read_loop c k orig (Some p) prev_frame hp = (imgs, hp', None)
     \<and> length imgs = Suc (length (src_rest orig))
     \<and> (\<forall>j<length imgs. im_size (imgs ! j) = src_size orig
          \<and> (\<forall>x < fst (src_size orig). \<forall>y < snd (src_size orig).
                opaque ((src_cur orig # src_rest orig) ! j) (x, y) \<longrightarrow>
                im_px (imgs ! j) (x, y) =
                  convert_px (ensure_palette p ((src_cur orig # src_rest orig) ! j)) (x, y)))"
proof (induction "src_rest orig" arbitrary: orig k prev_frame hp)
  case Nil
  then have rest: "src_rest orig = []" by simp
  show ?case
    by (subst read_loop_unfold)
      (simp add: palette_step_Some rest canvas_of_size canvas_of_px with_palette_simps)
next
  case (Cons f fs)
  then have rest: "src_rest orig = f # fs" by simp
  let ?cv = "canvas_of (with_palette p orig)"
  let ?hp2 = "update (next_addr hp) (c k) (push hp ?cv)"
  let ?o2 = "advance (with_palette p orig) f fs"
  have fs: "fs = src_rest ?o2" by (simp add: advance_simps)
  from Cons.hyps(1) [OF fs, where k = "Suc k" and prev_frame = "next_addr hp" and hp = ?hp2]
  obtain imgs hp' where
    run: "read_loop c (Suc k) ?o2 (Some p) (next_addr hp) ?hp2 = (imgs, hp', None)"
    and len: "length imgs = Suc (length fs)"
    and px: "\<forall>j<length imgs. im_size (imgs ! j) = src_size orig
          \<and> (\<forall>x < fst (src_size orig). \<forall>y < snd (src_size orig).
                opaque ((f # fs) ! j) (x, y) \<longrightarrow>
                im_px (imgs ! j) (x, y) = convert_px (ensure_palette p ((f # fs) ! j)) (x, y))"
    by (auto simp: advance_simps with_palette_simps)
  have out: "read_loop c k orig (Some p) prev_frame hp = (?cv # imgs, hp', None)"
    by (subst read_loop_unfold) (simp add: palette_step_Some rest run)
  have head: "im_size ?cv = src_size orig
      \<and> (\<forall>x < fst (src_size orig). \<forall>y < snd (src_size orig).
            opaque (src_cur orig) (x, y) \<longrightarrow>
            im_px ?cv (x, y) = convert_px (ensure_palette p (src_cur orig)) (x, y))"
    by (simp add: canvas_of_size canvas_of_px with_palette_simps)
  have all: "im_size ((?cv # imgs) ! j) = src_size orig
          \<and> (\<forall>x < fst (src_size orig). \<forall>y < snd (src_size orig).
                opaque ((src_cur orig # src_rest orig) ! j) (x, y) \<longrightarrow>
                im_px ((?cv # imgs) ! j) (x, y) =
                  convert_px (ensure_palette p ((src_cur orig # src_rest orig) ! j)) (x, y))"
    if "j < length (?cv # imgs)" for j
  proof (cases j)
    case 0
    then show ?thesis using head by simp
  next
    case (Suc j')
    then have "j' < length imgs" using that by simp
    then show ?thesis using px Suc rest by simp
  qed
  show ?case
    unfolding out using len all rest by simp
qed

lemma read_loop_never_EOF:
  "read_loop c k orig palette prev_frame hp = (imgs, hp', Some e) \<Longrightarrow> e = TypeError"
proof (induction "src_rest orig" arbitrary: orig k prev_frame hp imgs hp')
  case Nil
  then show ?case
    by (subst (asm) read_loop_unfold)
      (auto split: sum.splits dest: palette_step_error)
next
  case (Cons f fs)
  have rest: "src_rest orig = f # fs" using Cons.hyps(2) by simp
  show ?case
  proof (cases "palette_step orig palette")
    case (Inl e')
    then show ?thesis
      using Cons.prems palette_step_error [OF Inl] by (subst (asm) read_loop_unfold) simp
  next
    case (Inr orig1)
    let ?hp2 = "update (next_addr hp) (c k) (push hp (canvas_of orig1))"
    obtain imgs2 hp2' r2 where
      rec: "read_loop c (Suc k) (advance orig1 f fs) palette (next_addr hp) ?hp2 = (imgs2, hp2', r2)"
      by (cases "read_loop c (Suc k) (advance orig1 f fs) palette (next_addr hp) ?hp2") auto
    have "r2 = Some e"
      using Cons.prems Inr rest rec by (subst (asm) read_loop_unfold) simp
    then show ?thesis
      using Cons.hyps(1) [where orig = "advance orig1 f fs" and k = "Suc k"
          and prev_frame = "next_addr hp" and hp = ?hp2 and imgs = imgs2 and hp' = hp2'] rec
      by (simp add: advance_simps)
  qed
qed



lemma read_frames_eq:
  "read_frames c orig hp =
     read_loop c 0 (load orig) (fr_palette (src_cur orig)) (next_addr hp)
       (push hp (convert_rgba (load orig)))"
  by (simp add: read_frames_def getpalette_def alloc_def push_def)

lemma read_frames_no_palette:
  assumes "fr_palette (src_cur orig) = None"
  shows "read_frames c orig hp = ([], push hp (convert_rgba (load orig)), Some TypeError)"
  unfolding read_frames_eq assms
  by (subst read_loop_unfold) (simp add: palette_step_load palette_step_None assms)

lemma read_frames_never_EOF: "snd (snd (read_frames c orig hp)) \<noteq> Some EOFError"
proof
  assume a: "snd (snd (read_frames c orig hp)) = Some EOFError"
  obtain imgs hp' where
    "read_loop c 0 (load orig) (fr_palette (src_cur orig)) (next_addr hp)
       (push hp (convert_rgba (load orig))) = (imgs, hp', Some EOFError)"
    using a unfolding read_frames_eq
    by (cases "read_loop c 0 (load orig) (fr_palette (src_cur orig)) (next_addr hp)
       (push hp (convert_rgba (load orig)))") auto
  from read_loop_never_EOF [OF this] show False by simp
qed

lemma read_frames_yields:
  assumes "fr_palette (src_cur orig) = Some p"
  shows "\<exists>imgs hp'. read_frames c orig hp = (imgs, hp', None)
     \<and> length imgs = Suc (length (src_rest orig))
     \<and> (\<forall>j<length imgs. im_size (imgs ! j) = src_size orig
          \<and> (\<forall>x < fst (src_size orig). \<forall>y < snd (src_size orig).
                opaque ((src_cur orig # src_rest orig) ! j) (x, y) \<longrightarrow>
                im_px (imgs ! j) (x, y) =
                  convert_px (ensure_palette p ((src_cur orig # src_rest orig) ! j)) (x, y)))"
proof -
  have ld: "src_cur (load orig) # src_rest (load orig) = src_cur (load orig) # src_rest orig"
    by (simp add: load_simps)
  have nth: "opaque ((src_cur (load orig) # src_rest orig) ! j) = opaque ((src_cur orig # src_rest orig) ! j)"
    "convert_px (ensure_palette p ((src_cur (load orig) # src_rest orig) ! j)) =
       convert_px (ensure_palette p ((src_cur orig # src_rest orig) ! j))" for j
    by (cases j; simp add: load_simps convert_px_ensure_load)+
  show ?thesis
    unfolding read_frames_eq assms
    using read_loop_yields [of c 0 "load orig" p "next_addr hp" "push hp (convert_rgba (load orig))"]
    by (simp add: load_simps nth)
qed

lemma patch_source_facts:
  "fr_palette (src_cur patch_source) = Some rgb_palette"
  "src_rest patch_source = [frame_patch]"
  "src_size patch_source = (3, 1)"
  by (simp_all add: patch_source_def frame_full_def frame_patch_def)

section \<open>The claims about the decoder\<close>

text \<open>
  One canvas per frame. For every source whose first frame reports a palette,
  \<^verbatim>\<open>read_frames\<close> ends normally after yielding exactly one canvas per frame from the
  cursor on (all \<open>N\<close> frames when the handle is at its first frame), in source order: the
  \<open>j\<close>-th canvas has the size of the canvas of the source and shows, wherever the
  \<open>j\<close>-th frame is not transparent, that frame's pixel decoded with the frame's own
  palette or else the first frame's. This holds whatever the caller does to the canvases
  it has received.
\<close>

theorem read_frames_one_canvas_per_frame:
  assumes "fr_palette (src_cur orig) = Some p"
  shows "\<exists>imgs hp'. read_frames c orig hp = (imgs, hp', None)
     \<and> length imgs = Suc (length (src_rest orig))
     \<and> (\<forall>j<length imgs. im_size (imgs ! j) = src_size orig
          \<and> (\<forall>x < fst (src_size orig). \<forall>y < snd (src_size orig).
                opaque ((src_cur orig # src_rest orig) ! j) (x, y) \<longrightarrow>
                im_px (imgs ! j) (x, y) =
                  convert_px (ensure_palette p ((src_cur orig # src_rest orig) ! j)) (x, y)))"
  using read_frames_yields [OF assms] .

text \<open>
  The theorem at the two-frame \<open>patch_source\<close>.
\<close>

theorem read_frames_one_canvas_per_frame_witness:
  "\<exists>imgs hp'. read_frames idle patch_source empty_heap = (imgs, hp', None)
     \<and> length imgs = 2 \<and> im_size (imgs ! 0) = (3, 1) \<and> im_size (imgs ! 1) = (3, 1)"
proof -
  from read_frames_one_canvas_per_frame [OF patch_source_facts(1), of idle empty_heap]
  obtain imgs hp' where r: "read_frames idle patch_source empty_heap = (imgs, hp', None)"
    and l: "length imgs = Suc (length (src_rest patch_source))"
    and s: "\<forall>j<length imgs. im_size (imgs ! j) = src_size patch_source"
    by blast
  have "length imgs = 2" using l by (simp add: patch_source_facts)
  moreover from this s have "im_size (imgs ! 0) = (3, 1)" "im_size (imgs ! 1) = (3, 1)"
    by (simp_all add: patch_source_facts)
  ultimately show ?thesis using r by blast
qed

text \<open>
  Claim C3 fails on the code for a source without a palette, such as a greyscale GIF.
  \<open>gray_source\<close> has one frame; \<^verbatim>\<open>getpalette()\<close> returns \<^verbatim>\<open>None\<close> on it, so the
  palette kept from the first frame is \<^verbatim>\<open>None\<close> and the loop body calls
  \<^verbatim>\<open>putpalette(None)\<close>: the run ends with \<^verbatim>\<open>TypeError\<close> and no canvas is yielded,
  where the claim promises one canvas.
\<close>

theorem read_frames_palette_less_source:
  "length (src_cur gray_source # src_rest gray_source) = 1
   \<and> fst (read_frames idle gray_source empty_heap) = []
   \<and> snd (snd (read_frames idle gray_source empty_heap)) = Some TypeError"
proof -
  have "fr_palette (src_cur gray_source) = None" by (simp add: gray_source_def)
  from read_frames_no_palette [OF this, of idle empty_heap] show ?thesis
    by (simp add: gray_source_def)
qed

text \<open>
  Claim C9. \<^verbatim>\<open>seek\<close> to the next frame raises \<^verbatim>\<open>EOFError\<close> exactly when no frame
  remains; a run of \<^verbatim>\<open>read_frames\<close> never ends with \<^verbatim>\<open>EOFError\<close>; at the last frame
  the loop yields its canvas and stops without an exception; and a source whose first
  frame reports a palette is decoded to its end without any exception.
\<close>

theorem end_of_sequence_is_normal_termination:
  "(seek orig (tell orig + 1) = Inl EOFError) = (src_rest orig = [])
   \<and> snd (snd (read_frames c orig hp)) \<noteq> Some EOFError
   \<and> (src_rest orig = [] \<and> frame_body orig palette prev_frame hp = Inr (cf, orig1, hp1) \<longrightarrow>
        read_loop c k orig palette prev_frame hp = ([cells hp1 cf], update cf (c k) hp1, None))
   \<and> (fr_palette (src_cur orig) = Some p \<longrightarrow> snd (snd (read_frames c orig hp)) = None)"
proof -
  have a: "(seek orig (tell orig + 1) = Inl EOFError) = (src_rest orig = [])"
    using seek_next_EOF_iff [of orig] by simp
  have b: "read_loop c k orig palette prev_frame hp = ([cells hp1 cf], update cf (c k) hp1, None)"
    if "src_rest orig = []" "frame_body orig palette prev_frame hp = Inr (cf, orig1, hp1)"
  proof -
    have "src_rest orig1 = []" using frame_body_rest [OF that(2)] that(1) by simp
    then have "seek orig1 (Suc (tell orig1)) = Inl EOFError" by (rule seek_next_Nil)
    then show ?thesis
      by (subst read_loop.simps) (simp add: that(2) Let_def)
  qed
  have d: "snd (snd (read_frames c orig hp)) = None" if "fr_palette (src_cur orig) = Some p"
    using read_frames_yields [OF that, of c hp] by auto
  show ?thesis using a b d read_frames_never_EOF [of c orig hp] by blast
qed

text \<open>
  The theorem at \<open>patch_source\<close>.
\<close>

theorem end_of_sequence_is_normal_termination_witness:
  "snd (snd (read_frames idle patch_source empty_heap)) = None"
  using end_of_sequence_is_normal_termination [of patch_source idle empty_heap _ _ _ _ _ _ rgb_palette]
    patch_source_facts(1) by blast

text \<open>
  Claim C5 fails on the code. The comment above the test says that a frame holding
  only changes is drawn over the previous canvas, but \<^verbatim>\<open>getpalette()\<close> in the line
  before has loaded the frame, and a loaded frame has an empty tile list, so
  \<^verbatim>\<open>is_partial_frame\<close> answers \<^verbatim>\<open>False\<close> and the previous canvas is never pasted.
  In \<open>hole_source\<close>, 3 by 1, the second frame has no palette, covers the two left
  pixels only and is transparent at (1, 0) and (2, 0). The first canvas is red, red,
  blue. The second canvas is green, then fully transparent black at (1, 0) and at
  (2, 0), which lies outside the sub-rectangle of the frame, where the claim promises
  the first canvas's red and blue.
\<close>

theorem partial_frame_not_composited:
  "src_size hole_source = (3, 1)
   \<and> fr_tile hole_patch = [(0, 0, 2, 1)]
   \<and> Option.is_none (fr_palette hole_patch)
   \<and> map raster (fst (read_frames idle hole_source empty_heap)) =
       [[255, 0, 0, 255, 255, 0, 0, 255, 0, 0, 255, 255],
        [0, 255, 0, 255, 0, 0, 0, 0, 0, 0, 0, 0]]"
  by code_simp



end
